theory Spec2Isabelle
  imports Complex_Main "HOL-Library.Sublist" "HOL-Library.Log_Nat"
begin

section \<open>JavaScript values used by the Excel loader and the dashboard filters\<close>

text \<open>
  Strings are lists of UTF-16 code units; the model covers the code units below 256
  (Latin-1), one \<^typ>\<open>char\<close> per code unit. The headers, keywords and names of the
  source are inside that range (the non-ASCII letters of its Portuguese words are written
  by their code, as in \<open>CHR 0xE3\<close>), and
  \<open>trim\<close> and \<open>toLowerCase\<close> keep a string inside it.

  A Number is \<open>NaN\<close>, an infinity or a finite binary64 value, held as the rational
  it denotes. Where the code computes a Number from a decimal literal or from a product,
  the exact result is rounded to binary64 (\<open>binary64\<close> below). \<open>-0\<close> is the same value
  as \<open>0\<close>: both are falsy, and no comparison of the source tells them apart.
\<close>

datatype jsnum = NaN | NInf | Fin rat | PInf

datatype jsval = Str string | Num jsnum

subsection \<open>Rounding to binary64\<close>

text \<open>\<open>\<lfloor>log\<^sub>2 q\<rfloor>\<close> of a positive rational, from the bit lengths of its numerator and
  denominator.\<close>

definition ilog2 :: "rat \<Rightarrow> int" where
  "ilog2 q =
     (case quotient_of q of (a, b) \<Rightarrow>
        (let k = bitlen a - bitlen b in if 2 powi k \<le> q then k else k - 1))"

text \<open>The nearest integer, a tie going to the even one.\<close>

definition round_half_even :: "rat \<Rightarrow> int" where
  "round_half_even x =
     (let f = \<lfloor>x\<rfloor>; r = x - of_int f
      in if r < 1 / 2 then f
         else if 1 / 2 < r then f + 1
         else if even f then f else f + 1)"

text \<open>
  Round to nearest, ties to even, of a positive rational. The result is a multiple of
  \<open>2 powi e\<close> with a significand of at most 53 bits; \<open>e\<close> is never below \<open>-1074\<close>, the
  spacing of the subnormal numbers, so that a value under half that spacing rounds to 0;
  a result of \<open>2 ^ 1024\<close> or more is \<open>Infinity\<close>.
\<close>

definition binary64_pos :: "rat \<Rightarrow> jsnum" where
  "binary64_pos q =
     (let e = max (ilog2 q - 52) (- 1074);
          v = of_int (round_half_even (q / 2 powi e)) * 2 powi e
      in if 2 ^ 1024 \<le> v then PInf else Fin v)"

fun js_neg :: "jsnum \<Rightarrow> jsnum" where
  "js_neg (Fin x) = Fin (- x)"
| "js_neg PInf = NInf"
| "js_neg NInf = PInf"
| "js_neg NaN = NaN"

definition binary64 :: "rat \<Rightarrow> jsnum" where
  "binary64 q =
     (if q = 0 then Fin 0
      else if 0 < q then binary64_pos q
      else js_neg (binary64_pos (- q)))"

subsection \<open>Operators on Numbers\<close>

text \<open>The relational operators on Numbers: every comparison with \<open>NaN\<close> is false.\<close>

fun js_lt :: "jsnum \<Rightarrow> jsnum \<Rightarrow> bool" where
  "js_lt NaN _ = False"
| "js_lt _ NaN = False"
| "js_lt PInf _ = False"
| "js_lt _ NInf = False"
| "js_lt NInf _ = True"
| "js_lt (Fin x) (Fin y) = (x < y)"
| "js_lt (Fin x) PInf = True"

definition js_gt :: "jsnum \<Rightarrow> jsnum \<Rightarrow> bool" where
  "js_gt a b = js_lt b a"

fun js_ge :: "jsnum \<Rightarrow> jsnum \<Rightarrow> bool" where
  "js_ge NaN _ = False"
| "js_ge _ NaN = False"
| "js_ge a b = (\<not> js_lt a b)"

definition js_le :: "jsnum \<Rightarrow> jsnum \<Rightarrow> bool" where
  "js_le a b = js_ge b a"

text \<open>\<open>ToBoolean\<close> of a Number: \<open>NaN\<close> and zero are falsy.\<close>

fun truthy :: "jsnum \<Rightarrow> bool" where
  "truthy NaN = False"
| "truthy (Fin x) = (x \<noteq> 0)"
| "truthy _ = True"

text \<open>\<open>Math.round\<close>: the integer nearest to the argument, ties towards \<open>+\<infinity>\<close>.\<close>

fun Math_round :: "jsnum \<Rightarrow> jsnum" where
  "Math_round (Fin x) = Fin (of_int \<lfloor>x + 1 / 2\<rfloor>)"
| "Math_round n = n"

subsection \<open>String primitives\<close>

definition is_ws :: "char \<Rightarrow> bool" where
  "is_ws c = (of_char c \<in> {9, 10, 11, 12, 13, 32, 160 :: nat})"

definition trim :: "string \<Rightarrow> string" where
  "trim s = rev (dropWhile is_ws (rev (dropWhile is_ws s)))"

definition lower_char :: "char \<Rightarrow> char" where
  "lower_char c =
     (let n = of_char c :: nat
      in if (65 \<le> n \<and> n \<le> 90) \<or> (192 \<le> n \<and> n \<le> 222 \<and> n \<noteq> 215)
         then char_of (n + 32) else c)"

definition toLowerCase :: "string \<Rightarrow> string" where
  "toLowerCase s = map lower_char s"

text \<open>\<open>s.includes(k)\<close>: \<open>k\<close> occurs in \<open>s\<close> as a contiguous substring.\<close>

fun str_includes :: "string \<Rightarrow> string \<Rightarrow> bool" where
  "str_includes [] k = (k = [])"
| "str_includes (c # cs) k = (prefix k (c # cs) \<or> str_includes cs k)"

text \<open>\<open>s.replace(a, b)\<close> with one-character strings: only the first occurrence.\<close>

fun replace_first :: "char \<Rightarrow> char \<Rightarrow> string \<Rightarrow> string" where
  "replace_first a b [] = []"
| "replace_first a b (c # cs) = (if c = a then b # cs else c # replace_first a b cs)"

subsection \<open>\<open>parseFloat\<close>\<close>

definition is_digit :: "char \<Rightarrow> bool" where
  "is_digit c = (48 \<le> (of_char c :: nat) \<and> (of_char c :: nat) \<le> 57)"

definition digits_val :: "string \<Rightarrow> nat" where
  "digits_val ds = foldl (\<lambda>a c. 10 * a + (of_char c - 48)) 0 ds"

text \<open>The sign in front of a literal or of an exponent: is it negative, and the rest.\<close>

fun take_sign :: "string \<Rightarrow> bool \<times> string" where
  "take_sign [] = (False, [])"
| "take_sign (c # cs) =
     (if c = CHR ''-'' then (True, cs)
      else if c = CHR ''+'' then (False, cs)
      else (False, c # cs))"

text \<open>
  The exponent part \<open>e\<close>/\<open>E\<close>, sign, digits: the scaling it applies to a mantissa. A
  letter \<open>e\<close> with no digit after it is not part of the literal.
\<close>

fun scale_exp :: "string \<Rightarrow> rat \<Rightarrow> rat" where
  "scale_exp [] m = m"
| "scale_exp (c # cs) m =
     (if c = CHR ''e'' \<or> c = CHR ''E'' then
        (case take_sign cs of (neg, r) \<Rightarrow>
          (let ds = takeWhile is_digit r
           in if ds = [] then m
              else if neg then m / 10 ^ digits_val ds
              else m * 10 ^ digits_val ds))
      else m)"

text \<open>
  \<open>parseFloat\<close> of a string: skip leading white space, read the longest prefix that is a
  decimal literal (\<open>Infinity\<close>, or digits with an optional fraction and exponent), and
  give \<open>NaN\<close> when there is none. The result is the binary64 value nearest to the
  literal's decimal value (the language lets an engine ignore the digits after the
  twentieth significant one; the model, like the common engines, reads them all).
\<close>

definition parseFloatStr :: "string \<Rightarrow> jsnum" where
  "parseFloatStr s =
     (case take_sign (dropWhile is_ws s) of (neg, u) \<Rightarrow>
        if prefix ''Infinity'' u then (if neg then NInf else PInf)
        else
          (let ip = takeWhile is_digit u;
               r1 = dropWhile is_digit u;
               dot = (r1 \<noteq> [] \<and> hd r1 = CHR ''.'');
               fp = (if dot then takeWhile is_digit (tl r1) else []);
               r2 = (if dot then dropWhile is_digit (tl r1) else r1)
           in if ip = [] \<and> fp = [] then NaN
              else
                (let m = scale_exp r2 (of_nat (digits_val (ip @ fp)) / 10 ^ length fp)
                 in binary64 (if neg then - m else m))))"

text \<open>
  \<open>parseFloat\<close> of any value: a Number is converted to a string first, and that string
  parses back to the same Number.
\<close>

fun parseFloat :: "jsval \<Rightarrow> jsnum" where
  "parseFloat (Str s) = parseFloatStr s"
| "parseFloat (Num n) = n"

section \<open>\<open>excel-loader.js\<close>: the utility functions\<close>

definition normalizeString :: "string \<Rightarrow> string" where
  "normalizeString str = (if str = [] then [] else toLowerCase (trim str))"

text \<open>\<open>x || 0\<close> on a Number.\<close>

definition or_zero :: "jsnum \<Rightarrow> jsnum" where
  "or_zero n = (if truthy n then n else Fin 0)"

definition parseSegment :: "jsval \<Rightarrow> jsval \<Rightarrow> string" where
  "parseSegment vol_in aff_in =
     (let vol = or_zero (parseFloat vol_in);
          aff = or_zero (parseFloat aff_in)
      in if js_ge vol (Fin 60) \<and> js_ge aff (Fin 60) then ''blindar''
         else if js_lt vol (Fin 60) \<and> js_ge aff (Fin 60) then ''incentivar''
         else if js_ge vol (Fin 60) \<and> js_lt aff (Fin 60) then ''avaliar''
         else ''conquistar'')"

definition parsePriority :: "jsval \<Rightarrow> jsval \<Rightarrow> string \<Rightarrow> string" where
  "parsePriority vol_in aff_in seg =
     (let vol = or_zero (parseFloat vol_in);
          aff = or_zero (parseFloat aff_in)
      in if seg = ''blindar'' then ''strategic''
         else if js_gt vol (Fin 80) \<or> js_gt aff (Fin 80) then ''high''
         else if js_lt vol (Fin 40) \<and> js_lt aff (Fin 40) then ''new-opportunities''
         else ''strategic'')"

text \<open>
  The keyword table of \<open>parseSpecialty\<close>, in declaration order (the order in which
  \<open>Object.entries\<close> lists it).
\<close>

definition specialtyMap :: "(string \<times> string) list" where
  "specialtyMap =
     [(''cardiologia'', ''cardiologia''), (''cardio'', ''cardiologia''),
      (''neurologia'', ''neurologia''), (''neuro'', ''neurologia''),
      (''ortopedia'', ''ortopedia''), (''orto'', ''ortopedia''),
      (''ginecologia'', ''ginecologia''), (''gineco'', ''ginecologia''),
      (''urologia'', ''urologia''), (''uro'', ''urologia''),
      (''dermatologia'', ''dermatologia''), (''derma'', ''dermatologia''),
      (''gastroenterologia'', ''gastroenterologia''), (''gastro'', ''gastroenterologia''),
      (''endocrinologia'', ''endocrinologia''), (''endocrino'', ''endocrinologia''),
      (''pneumologia'', ''pneumologia''), (''pneumo'', ''pneumologia''),
      (''reumatologia'', ''reumatologia''), (''reuma'', ''reumatologia''),
      (''oncologia'', ''oncologia''), (''onco'', ''oncologia''),
      (''pediatria'', ''pediatria''), (''pediatra'', ''pediatria''),
      (''psiquiatria'', ''psiquiatria''), (''psiquiatra'', ''psiquiatria''),
      (''oftalmologia'', ''oftalmologia''), (''oftalmo'', ''oftalmologia''),
      (''nefrologia'', ''nefrologia''), (''nefro'', ''nefrologia''),
      (''infectologia'', ''infectologia''), (''infectologista'', ''infectologia''),
      (''hematologia'', ''hematologia''), (''hemato'', ''hematologia''),
      (''geriatria'', ''geriatria''), (''geriatra'', ''geriatria''),
      (''anestesiologia'', ''anestesiologia''), (''anestesista'', ''anestesiologia''),
      (''radiologia'', ''radiologia''), (''radiologo'', ''radiologia''),
      (''patologia'', ''patologia''), (''patologo'', ''patologia''),
      (''cirurgia'', ''cirurgia-geral''), (''cirurgiao'', ''cirurgia-geral''),
      (''medicina interna'', ''medicina-interna''), (''clinica'', ''medicina-interna''),
      (''clinico'', ''medicina-interna'')]"

fun first_match :: "string \<Rightarrow> (string \<times> string) list \<Rightarrow> string" where
  "first_match normalized [] = ''outras''"
| "first_match normalized ((key, val) # entries) =
     (if str_includes normalized key then val else first_match normalized entries)"

definition parseSpecialty :: "string \<Rightarrow> string" where
  "parseSpecialty text =
     (if text = [] then ''outras'' else first_match (normalizeString text) specialtyMap)"

section \<open>\<open>excel-loader.js\<close>: the data processor\<close>

text \<open>
  A sheet is the grid \<open>sheet_to_json\<close> extracts with \<open>header: 1\<close>, \<open>defval: ''\<close> and
  \<open>raw: false\<close>: a list of rows, each a list of formatted strings. Reading a row at
  an index it does not have, or at the \<open>null\<close> of an unresolved column, gives
  \<open>undefined\<close>, here \<open>None\<close>.
\<close>

type_synonym row = "string list"

record columnMap =
  cm_name :: "nat option"
  cm_specialty :: "nat option"
  cm_volume :: "nat option"
  cm_affinity :: "nat option"

record doctor =
  id' :: nat
  name :: string
  specialty :: string
  segment :: string
  volume :: jsnum
  affinity :: jsnum
  priority :: string
  originalRow :: "nat option"

text \<open>The four header tests of \<open>identifyColumns\<close>, on the normalized header.\<close>

definition name_header :: "string \<Rightarrow> bool" where
  "name_header h =
     (str_includes h ''nome'' \<or> str_includes h ''medico'' \<or> str_includes h ''doutor''
      \<or> str_includes h ''profissional'')"

definition specialty_header :: "string \<Rightarrow> bool" where
  "specialty_header h =
     (str_includes h ''especialidade'' \<or> str_includes h ''area''
      \<or> str_includes h (''especializa'' @ [CHR 0xE7, CHR 0xE3] @ ''o''))"

definition volume_header :: "string \<Rightarrow> bool" where
  "volume_header h =
     (str_includes h ''volume'' \<or> str_includes h ''consultas''
      \<or> str_includes h ''atendimentos'')"

definition affinity_header :: "string \<Rightarrow> bool" where
  "affinity_header h =
     (str_includes h ''afinidade'' \<or> str_includes h ''relacionamento''
      \<or> str_includes h ''engajamento'')"

text \<open>One step of the \<open>forEach\<close> over the headers: four independent overwrites.\<close>

definition identify_step :: "string \<Rightarrow> nat \<Rightarrow> columnMap \<Rightarrow> columnMap" where
  "identify_step header index cm =
     (let normalizedHeader = normalizeString header;
          cm1 = (if name_header normalizedHeader then cm\<lparr>cm_name := Some index\<rparr> else cm);
          cm2 = (if specialty_header normalizedHeader
                 then cm1\<lparr>cm_specialty := Some index\<rparr> else cm1);
          cm3 = (if volume_header normalizedHeader
                 then cm2\<lparr>cm_volume := Some index\<rparr> else cm2)
      in if affinity_header normalizedHeader then cm3\<lparr>cm_affinity := Some index\<rparr> else cm3)"

fun identify_loop :: "string list \<Rightarrow> nat \<Rightarrow> columnMap \<Rightarrow> columnMap" where
  "identify_loop [] index cm = cm"
| "identify_loop (header # headers) index cm =
     identify_loop headers (Suc index) (identify_step header index cm)"

definition identifyColumns :: "string list \<Rightarrow> columnMap" where
  "identifyColumns headers =
     identify_loop headers 0
       \<lparr>cm_name = None, cm_specialty = None, cm_volume = None, cm_affinity = None\<rparr>"

text \<open>\<open>row[columnMap.field]\<close>.\<close>

definition cell :: "row \<Rightarrow> nat option \<Rightarrow> string option" where
  "cell r col =
     (case col of None \<Rightarrow> None
      | Some i \<Rightarrow> if i < length r then Some (r ! i) else None)"

text \<open>
  \<open>Math.random\<close> is a source of draws from \<open>[0, 1)\<close>, read in order: the state is the
  sequence of the draws still to come. The product \<open>Math.random() * 100\<close> is a Number,
  the exact product rounded to binary64.
\<close>

type_synonym rng = "nat \<Rightarrow> rat"

definition random100 :: "rng \<Rightarrow> jsnum \<times> rng" where
  "random100 g = (binary64 (g 0 * 100), (\<lambda>n. g (Suc n)))"

text \<open>\<open>row[col] || Math.random() * 100\<close>: an absent or empty cell draws a number.\<close>

definition cell_or_random :: "string option \<Rightarrow> rng \<Rightarrow> jsval \<times> rng" where
  "cell_or_random c g =
     (case c of
        None \<Rightarrow> (case random100 g of (r, g') \<Rightarrow> (Num r, g'))
      | Some s \<Rightarrow> if s = [] then (case random100 g of (r, g') \<Rightarrow> (Num r, g')) else (Str s, g))"

text \<open>\<open>parseFloat(v) || Math.random() * 100\<close>.\<close>

definition parse_or_random :: "jsval \<Rightarrow> rng \<Rightarrow> jsnum \<times> rng" where
  "parse_or_random v g = (if truthy (parseFloat v) then (parseFloat v, g) else random100 g)"

text \<open>
  Lines 245 to 251 of \<open>processRow\<close>: the processed volume and affinity of a row, with the
  draws made in the order of the source.
\<close>

definition processedValues :: "row \<Rightarrow> columnMap \<Rightarrow> rng \<Rightarrow> (jsnum \<times> jsnum) \<times> rng" where
  "processedValues r cm g =
     (case cell_or_random (cell r (cm_volume cm)) g of (vol, g1) \<Rightarrow>
      case cell_or_random (cell r (cm_affinity cm)) g1 of (aff, g2) \<Rightarrow>
      case parse_or_random vol g2 of (processedVolume, g3) \<Rightarrow>
      case parse_or_random aff g3 of (processedAffinity, g4) \<Rightarrow>
        ((processedVolume, processedAffinity), g4))"

text \<open>\<open>!columnMap.name\<close>: true for \<open>null\<close> and for the index \<open>0\<close>.\<close>

definition falsy_index :: "nat option \<Rightarrow> bool" where
  "falsy_index col = (case col of None \<Rightarrow> True | Some i \<Rightarrow> i = 0)"

text \<open>\<open>!name || utils.normalizeString(name).length === 0\<close>.\<close>

definition empty_name :: "string option \<Rightarrow> bool" where
  "empty_name c =
     (case c of None \<Rightarrow> True | Some s \<Rightarrow> s = [] \<or> length (normalizeString s) = 0)"

definition processRow :: "row \<Rightarrow> string list \<Rightarrow> nat \<Rightarrow> rng \<Rightarrow> doctor option \<times> rng" where
  "processRow r headers rowNumber g =
     (let columnMap = identifyColumns headers
      in if falsy_index (cm_name columnMap) then (None, g)
         else if empty_name (cell r (cm_name columnMap)) then (None, g)
         else
           (case cell r (cm_name columnMap) of
              None \<Rightarrow> (None, g)
            | Some name_text \<Rightarrow>
               (let specialty_text = (case cell r (cm_specialty columnMap) of
                                        None \<Rightarrow> [] | Some s \<Rightarrow> s)
                in case processedValues r columnMap g of
                     ((processedVolume, processedAffinity), g') \<Rightarrow>
                       (let seg = parseSegment (Num processedVolume) (Num processedAffinity)
                        in (Some \<lparr>id' = rowNumber,
                                  name = trim name_text,
                                  specialty = parseSpecialty specialty_text,
                                  segment = seg,
                                  volume = Math_round processedVolume,
                                  affinity = Math_round processedAffinity,
                                  priority = parsePriority (Num processedVolume)
                                               (Num processedAffinity) seg,
                                  originalRow = Some rowNumber\<rparr>, g')))))"

text \<open>
  The \<open>forEach\<close> of \<open>processRawData\<close> over the data rows. With string cells no
  statement of \<open>processRow\<close> throws, so the \<open>catch\<close> around the call is never entered.
\<close>

fun processRows :: "string list \<Rightarrow> row list \<Rightarrow> nat \<Rightarrow> rng \<Rightarrow> doctor list \<times> rng" where
  "processRows headers [] index g = ([], g)"
| "processRows headers (r # rs) index g =
     (case processRow r headers (index + 2) g of
        (None, g') \<Rightarrow> processRows headers rs (Suc index) g'
      | (Some d, g') \<Rightarrow>
          (case processRows headers rs (Suc index) g' of (ds, g'') \<Rightarrow> (d # ds, g'')))"

datatype error = Error string

definition processRawData :: "row list \<Rightarrow> rng \<Rightarrow> error + doctor list" where
  "processRawData rawData g =
     (if length rawData < 2 then Inl (Error ''Dados insuficientes na planilha'')
      else Inr (fst (processRows (hd rawData) (tl rawData) 0 g)))"

section \<open>\<open>excel-loader.js\<close>: the main loader\<close>

definition getFallbackData :: "doctor list" where
  "getFallbackData =
     [\<lparr>id' = 1, name = ''Dr. Jo'' @ [CHR 0xE3] @ ''o Silva'', specialty = ''cardiologia'',
       segment = ''blindar'', volume = Fin 85, affinity = Fin 90, priority = ''high'',
       originalRow = None\<rparr>,
      \<lparr>id' = 2, name = ''Dra. Maria Santos'', specialty = ''neurologia'',
       segment = ''blindar'', volume = Fin 82, affinity = Fin 88, priority = ''high'',
       originalRow = None\<rparr>,
      \<lparr>id' = 3, name = ''Dr. Pedro Oliveira'', specialty = ''ortopedia'',
       segment = ''incentivar'', volume = Fin 45, affinity = Fin 88,
       priority = ''new-opportunities'', originalRow = None\<rparr>]"

text \<open>
  \<open>loadData\<close>. Fetching the file, reading the workbook and extracting the sheet are
  calls into the browser and into SheetJS: their joint outcome is the argument, either
  the error one of them threw or the extracted grid. Whatever is thrown inside the
  \<open>try\<close> block ends in the \<open>catch\<close> that returns the fallback data.
\<close>

definition loadData :: "error + row list \<Rightarrow> rng \<Rightarrow> doctor list" where
  "loadData extracted g =
     (case extracted of
        Inl e \<Rightarrow> getFallbackData
      | Inr rawData \<Rightarrow>
          (case processRawData rawData g of
             Inl e \<Rightarrow> getFallbackData
           | Inr processedData \<Rightarrow> processedData))"

section \<open>\<open>dashboard.js\<close>: the filters module\<close>

record range =
  range_min :: jsnum
  range_max :: jsnum

record filters =
  f_search :: string
  f_segments :: "string list"
  f_specialty :: string
  f_volume :: range
  f_affinity :: range
  f_quickFilters :: "string list"

text \<open>
  \<open>applyFilters\<close>, on the doctors of \<open>medicalData\<close> and the current filters: the list it
  hands to \<open>updateUI\<close>.
\<close>

definition applyFilters :: "doctor list \<Rightarrow> filters \<Rightarrow> doctor list" where
  "applyFilters doctors currentFilters =
     (let f1 = (if f_search currentFilters \<noteq> []
                then filter (\<lambda>d. str_includes (toLowerCase (name d))
                                   (toLowerCase (f_search currentFilters))) doctors
                else doctors);
          f2 = (if length (f_segments currentFilters) > 0
                then filter (\<lambda>d. segment d \<in> set (f_segments currentFilters)) f1
                else f1);
          f3 = (if f_specialty currentFilters \<noteq> []
                then filter (\<lambda>d. specialty d = f_specialty currentFilters) f2
                else f2);
          f4 = filter (\<lambda>d. js_ge (volume d) (range_min (f_volume currentFilters))) f3;
          f5 = filter (\<lambda>d. js_ge (affinity d) (range_min (f_affinity currentFilters))) f4
      in if length (f_quickFilters currentFilters) > 0
         then filter (\<lambda>d. list_ex (\<lambda>f. priority d = replace_first CHR ''-'' CHR ''_'' f)
                             (f_quickFilters currentFilters)) f5
         else f5)"

text \<open>The initial value of \<open>currentFilters\<close>.\<close>

definition currentFilters_initial :: filters where
  "currentFilters_initial =
     \<lparr>f_search = [], f_segments = [], f_specialty = [],
      f_volume = \<lparr>range_min = Fin 0, range_max = Fin 100\<rparr>,
      f_affinity = \<lparr>range_min = Fin 0, range_max = Fin 100\<rparr>,
      f_quickFilters = []\<rparr>"

text \<open>A random source whose every draw is the same number, for concrete runs.\<close>

definition constant_rng :: "rat \<Rightarrow> rng" where
  "constant_rng x = (\<lambda>n. x)"

text \<open>
  The Numbers that \<open>Math.round\<close> carries across the segment threshold: at least 59.5
  and below 60.
\<close>

definition in_gap :: "jsnum \<Rightarrow> bool" where
  "in_gap x = (js_ge x (Fin (119 / 2)) \<and> js_lt x (Fin 60))"

section \<open>Numbers that binary64 holds exactly\<close>

lemma ilog2_le:
  assumes "0 < q"
  shows "2 powi (ilog2 q) \<le> q"
proof -
  obtain a b where ab: "quotient_of q = (a, b)" by (cases "quotient_of q")
  then have b: "0 < b" and q: "q = of_int a / of_int b"
    by (simp_all add: quotient_of_denom_pos quotient_of_div)
  with assms have a: "0 < a" by (simp add: zero_less_divide_iff)
  let ?k = "bitlen a - bitlen b"
  show ?thesis
  proof (cases "2 powi ?k \<le> q")
    case True
    then show ?thesis by (simp add: ilog2_def ab Let_def)
  next
    case False
    from bitlen_bounds [OF a] have la: "(2::int) ^ nat (bitlen a - 1) \<le> a" by simp
    from bitlen_bounds [OF b] have lb: "b < (2::int) ^ nat (bitlen b)" by simp
    have ba: "1 \<le> bitlen a" using a by (simp add: bitlen_alt_def)
    have bb: "0 \<le> bitlen b" by (rule bitlen_nonneg)
    from la have "(of_int ((2::int) ^ nat (bitlen a - 1)) :: rat) \<le> of_int a"
      by (simp only: of_int_le_iff)
    then have la': "(2::rat) powi (bitlen a - 1) \<le> of_int a"
      using ba by (simp add: power_int_def)
    from lb have "(of_int b :: rat) \<le> of_int ((2::int) ^ nat (bitlen b))"
      by (simp only: of_int_le_iff)
    then have lb': "of_int b \<le> (2::rat) powi (bitlen b)"
      using bb by (simp add: power_int_def)
    have "?k - 1 = (bitlen a - 1) - bitlen b" by simp
    then have "(2::rat) powi (?k - 1) = 2 powi (bitlen a - 1) / 2 powi (bitlen b)"
      by (simp only: power_int_diff [of "2::rat", simplified])
    also have "\<dots> \<le> of_int a / of_int b"
      using la' lb' a b by (intro frac_le) simp_all
    finally have "(2::rat) powi (?k - 1) \<le> q" by (simp only: q)
    with False show ?thesis by (simp add: ilog2_def ab Let_def)
  qed
qed

lemma round_half_even_int: "round_half_even (of_int z) = z"
  by (simp add: round_half_even_def)

lemma binary64_exact:
  assumes "0 < m" "m < 2 ^ 53" "- 1074 \<le> e" "e \<le> 971"
  shows "binary64 (of_int m * 2 powi e) = Fin (of_int m * 2 powi e)"
proof -
  let ?q = "of_int m * 2 powi e :: rat"
  have q: "0 < ?q" using assms(1) by simp
  have "?q < 2 ^ 53 * 2 powi e"
    using assms(2) by (simp add: of_int_less_numeral_power_cancel_iff)
  also have "\<dots> = 2 powi (53 + e)" by (simp add: power_int_add)
  finally have "2 powi (ilog2 ?q) < (2::rat) powi (53 + e)"
    using ilog2_le [OF q] by simp
  then have "ilog2 ?q < 53 + e"
    by (rule_tac ccontr) (simp add: not_less power_int_increasing flip: not_le)
  define E where "E = max (ilog2 ?q - 52) (- 1074)"
  have E: "E \<le> e" using \<open>ilog2 ?q < 53 + e\<close> assms(3) by (simp add: E_def)
  have eq: "of_int m * 2 powi (e - E) = (of_int (m * 2 ^ nat (e - E)) :: rat)"
    using E by (simp add: power_int_def)
  have "?q / 2 powi E = of_int m * 2 powi (e - E)"
    by (simp add: power_int_diff)
  with eq have r: "round_half_even (?q / 2 powi E) = m * 2 ^ nat (e - E)"
    by (simp only: round_half_even_int)
  have "(2::rat) powi (e - E) * 2 powi E = 2 powi e"
    by (simp flip: power_int_add)
  then have v: "of_int (m * 2 ^ nat (e - E)) * 2 powi E = ?q"
    by (simp only: eq [symmetric] mult.assoc)
  have pe: "(2::rat) powi e \<le> 2 powi 971"
    using assms(4) by (intro power_int_increasing) simp_all
  have pm: "(of_int m :: rat) < 2 powi 53"
    using assms(2) by (simp add: of_int_less_numeral_power_cancel_iff)
  have "?q < 2 powi 53 * 2 powi 971"
    using pm pe assms(1) by (intro mult_less_le_imp_less) simp_all
  also have "\<dots> = 2 ^ 1024" by (simp flip: power_int_add)
  finally have lt: "\<not> (2 ^ 1024 \<le> ?q)" by (simp add: not_le)
  have "binary64_pos ?q = (if 2 ^ 1024 \<le> ?q then PInf else Fin ?q)"
    by (simp only: binary64_pos_def Let_def E_def [symmetric] r v)
  with lt have "binary64_pos ?q = Fin ?q" by (simp only: if_False)
  with q show ?thesis by (simp add: binary64_def)
qed

lemma binary64_int: "0 \<le> m \<Longrightarrow> m < 2 ^ 53 \<Longrightarrow> binary64 (of_int m) = Fin (of_int m)"
  using binary64_exact [of m 0] by (cases "m = 0") (simp_all add: binary64_def)

lemma binary64_not_NaN: "binary64 q \<noteq> NaN"
proof -
  have "binary64_pos x \<noteq> NaN" for x
    by (simp add: binary64_pos_def Let_def)
  then have "js_neg (binary64_pos x) \<noteq> NaN" for x
    by (cases "binary64_pos x") simp_all
  with \<open>\<And>x. binary64_pos x \<noteq> NaN\<close> show ?thesis
    by (simp add: binary64_def)
qed

lemma binary64_samples:
  "binary64 (239 / 4) = Fin (239 / 4)" "binary64 90 = Fin 90" "binary64 85 = Fin 85"
  "binary64 30 = Fin 30" "binary64 0 = Fin 0" "binary64 50 = Fin 50" "binary64 75 = Fin 75"
  using binary64_exact [of 239 "- 2"] binary64_int [of 90] binary64_int [of 85]
    binary64_int [of 30] binary64_int [of 50] binary64_int [of 75]
  by (simp_all add: binary64_def)

section \<open>Numbers that binary64 rounds\<close>

lemma ilog2_less:
  assumes "0 < q"
  shows "q < 2 powi (ilog2 q + 1)"
proof -
  obtain a b where ab: "quotient_of q = (a, b)" by (cases "quotient_of q")
  then have b: "0 < b" and q: "q = of_int a / of_int b"
    by (simp_all add: quotient_of_denom_pos quotient_of_div)
  with assms have a: "0 < a" by (simp add: zero_less_divide_iff)
  let ?k = "bitlen a - bitlen b"
  show ?thesis
  proof (cases "2 powi ?k \<le> q")
    case True
    from bitlen_bounds [OF a] have "a < (2::int) ^ nat (bitlen a)" by simp
    then have "(of_int a :: rat) < of_int ((2::int) ^ nat (bitlen a))"
      by (simp only: of_int_less_iff)
    then have la: "of_int a < (2::rat) powi (bitlen a)"
      using bitlen_nonneg [of a] by (simp add: power_int_def)
    from bitlen_bounds [OF b] have "(2::int) ^ nat (bitlen b - 1) \<le> b" by simp
    then have "(of_int ((2::int) ^ nat (bitlen b - 1)) :: rat) \<le> of_int b"
      by (simp only: of_int_le_iff)
    moreover have "1 \<le> bitlen b" using b by (simp add: bitlen_alt_def)
    ultimately have lb: "(2::rat) powi (bitlen b - 1) \<le> of_int b"
      by (simp add: power_int_def)
    have "of_int a / of_int b < (2::rat) powi (bitlen a) / 2 powi (bitlen b - 1)"
      using la lb a b by (intro frac_less) simp_all
    also have "bitlen a - (bitlen b - 1) = ?k + 1" by simp
    then have "(2::rat) powi (bitlen a) / 2 powi (bitlen b - 1) = 2 powi (?k + 1)"
      by (simp only: power_int_diff [of "2::rat", simplified, symmetric])
    finally have "q < 2 powi (?k + 1)" by (simp only: q)
    with True show ?thesis by (simp add: ilog2_def ab Let_def)
  next
    case False
    then show ?thesis by (simp add: ilog2_def ab Let_def not_le)
  qed
qed

lemma ilog2_unique:
  assumes "0 < q" "2 powi k \<le> q" "q < 2 powi (k + 1)"
  shows "ilog2 q = k"
proof -
  from assms(2) ilog2_less [OF assms(1)] have "(2::rat) powi k < 2 powi (ilog2 q + 1)" by simp
  then have 1: "k < ilog2 q + 1"
    by (rule_tac ccontr) (simp add: not_less power_int_increasing flip: not_le)
  from ilog2_le [OF assms(1)] assms(3) have "(2::rat) powi (ilog2 q) < 2 powi (k + 1)" by simp
  then have 2: "ilog2 q < k + 1"
    by (rule_tac ccontr) (simp add: not_less power_int_increasing flip: not_le)
  from 1 2 show ?thesis by simp
qed

lemma round_half_even_near:
  assumes "of_int z - 1 / 2 < x" "x < of_int z + 1 / 2"
  shows "round_half_even x = z"
proof (cases "of_int z \<le> x")
  case True
  with assms have "\<lfloor>x\<rfloor> = z" by (simp add: floor_eq_iff)
  with assms show ?thesis by (simp add: round_half_even_def)
next
  case False
  with assms have f: "\<lfloor>x\<rfloor> = z - 1" by (simp add: floor_eq_iff)
  with assms False show ?thesis by (simp add: round_half_even_def Let_def)
qed

lemma binary64_near:
  assumes "0 < q" "2 powi k \<le> q" "q < 2 powi (k + 1)"
    and "of_int z - 1 / 2 < q / 2 powi max (k - 52) (- 1074)"
    and "q / 2 powi max (k - 52) (- 1074) < of_int z + 1 / 2"
  shows "binary64 q =
          (if (2::rat) ^ 1024 \<le> of_int z * 2 powi max (k - 52) (- 1074) then PInf
           else Fin (of_int z * 2 powi max (k - 52) (- 1074)))"
proof -
  have k: "ilog2 q = k" using assms(1-3) by (rule ilog2_unique)
  have r: "round_half_even (q / 2 powi max (k - 52) (- 1074)) = z"
    using assms(4,5) by (rule round_half_even_near)
  have "binary64_pos q =
          (if (2::rat) ^ 1024 \<le> of_int z * 2 powi max (k - 52) (- 1074) then PInf
           else Fin (of_int z * 2 powi max (k - 52) (- 1074)))"
    by (simp only: binary64_pos_def Let_def k r)
  with assms(1) show ?thesis by (simp only: binary64_def) simp
qed

lemma binary64_rounds_to_60:
  "binary64 (5999999999999999999 / 100000000000000000) = Fin 60"
  using binary64_near [of "5999999999999999999 / 100000000000000000" 5 8444249301319680]
  by simp

lemma binary64_rounds_product:
  "binary64 (2679641778285445 / 2 ^ 52 * 100) = Fin (119 / 2)"
  using binary64_near [of "2679641778285445 / 2 ^ 52 * 100" 5 8373880557142016]
  by simp

lemma binary64_underflow: "binary64 (1 / 10 ^ 324) = Fin 0"
  using binary64_near [of "1 / 10 ^ 324" "- 1077" 0]
  by simp

lemma binary64_overflow: "binary64 (10 ^ 309) = PInf"
  using binary64_near [of "10 ^ 309" 1026 6263026125028040]
  by simp

section \<open>The classifier\<close>

lemma or_zero_id: "n \<noteq> NaN \<Longrightarrow> or_zero n = n"
  by (cases n) (simp_all add: or_zero_def)

lemma js_lt_not_ge: "v \<noteq> NaN \<Longrightarrow> js_lt v (Fin x) = (\<not> js_ge v (Fin x))"
  by (cases v) simp_all

text \<open>
  C4. On numbers (any Number but \<open>NaN\<close>), \<open>parseSegment\<close> gives \<open>blindar\<close> exactly when
  both volume and affinity are at least 60, \<open>incentivar\<close> exactly when the volume is below
  60 and the affinity at least 60, \<open>avaliar\<close> exactly when the volume is at least 60 and
  the affinity below 60, and \<open>conquistar\<close> exactly in the remaining case; at \<open>(60, 60)\<close>
  it gives \<open>blindar\<close>, so 60 is an inclusive lower bound on each axis.
\<close>

theorem parseSegment_thresholds:
  assumes "v \<noteq> NaN" and "a \<noteq> NaN"
  shows "(parseSegment (Num v) (Num a) = ''blindar''
            \<longleftrightarrow> js_ge v (Fin 60) \<and> js_ge a (Fin 60))
       \<and> (parseSegment (Num v) (Num a) = ''incentivar''
            \<longleftrightarrow> js_lt v (Fin 60) \<and> js_ge a (Fin 60))
       \<and> (parseSegment (Num v) (Num a) = ''avaliar''
            \<longleftrightarrow> js_ge v (Fin 60) \<and> js_lt a (Fin 60))
       \<and> (parseSegment (Num v) (Num a) = ''conquistar''
            \<longleftrightarrow> js_lt v (Fin 60) \<and> js_lt a (Fin 60))
       \<and> parseSegment (Num (Fin 60)) (Num (Fin 60)) = ''blindar''"
proof -
  have last: "parseSegment (Num (Fin 60)) (Num (Fin 60)) = ''blindar''"
    by (simp add: parseSegment_def or_zero_def)
  from assms have "parseSegment (Num v) (Num a) =
      (if js_ge v (Fin 60) \<and> js_ge a (Fin 60) then ''blindar''
       else if js_lt v (Fin 60) \<and> js_ge a (Fin 60) then ''incentivar''
       else if js_ge v (Fin 60) \<and> js_lt a (Fin 60) then ''avaliar''
       else ''conquistar'')"
    by (simp add: parseSegment_def or_zero_id)
  with assms last show ?thesis
    by (simp add: js_lt_not_ge)
qed

theorem parseSegment_thresholds_witness:
  "Fin 59 \<noteq> NaN \<and> Fin 60 \<noteq> NaN
   \<and> parseSegment (Num (Fin 59)) (Num (Fin 60)) = ''incentivar''
   \<and> js_lt (Fin 59) (Fin 60) \<and> js_ge (Fin 60) (Fin 60)"
  using parseSegment_thresholds [of "Fin 59" "Fin 60"] by simp

text \<open>
  C5. On numbers (any Number but \<open>NaN\<close>) and any segment, \<open>parsePriority\<close> takes the
  first rule that matches, in this order: \<open>strategic\<close> for the segment \<open>blindar\<close>, also
  when the volume or the affinity is above 80; otherwise \<open>high\<close> when the volume or the
  affinity is strictly above 80; otherwise \<open>new-opportunities\<close> when both are strictly
  below 40; \<open>strategic\<close> in every remaining case. The bounds are strict: 80 is not
  \<open>high\<close>, 40 is not \<open>new-opportunities\<close>.
\<close>

theorem parsePriority_rule_order:
  assumes "v \<noteq> NaN" and "a \<noteq> NaN"
  shows "parsePriority (Num v) (Num a) seg =
           (if seg = ''blindar'' then ''strategic''
            else if js_gt v (Fin 80) \<or> js_gt a (Fin 80) then ''high''
            else if js_lt v (Fin 40) \<and> js_lt a (Fin 40) then ''new-opportunities''
            else ''strategic'')
       \<and> parsePriority (Num v) (Num a) ''blindar'' = ''strategic''
       \<and> parsePriority (Num (Fin 80)) (Num (Fin 80)) ''avaliar'' = ''strategic''
       \<and> parsePriority (Num (Fin 40)) (Num (Fin 39)) ''conquistar'' = ''strategic''"
  using assms by (simp add: parsePriority_def or_zero_id js_gt_def)

theorem parsePriority_rule_order_witness:
  "Fin 85 \<noteq> NaN \<and> Fin 90 \<noteq> NaN
   \<and> parsePriority (Num (Fin 85)) (Num (Fin 90)) (parseSegment (Num (Fin 85)) (Num (Fin 90)))
       = ''strategic''
   \<and> parsePriority (Num (Fin 85)) (Num (Fin 30)) ''avaliar'' = ''high''
   \<and> parsePriority (Num (Fin 39)) (Num (Fin 10)) ''conquistar'' = ''new-opportunities''"
  using parsePriority_rule_order [of "Fin 85" "Fin 90" "parseSegment (Num (Fin 85)) (Num (Fin 90))"]
    parsePriority_rule_order [of "Fin 85" "Fin 30" "''avaliar''"]
    parsePriority_rule_order [of "Fin 39" "Fin 10" "''conquistar''"]
  by (simp add: js_gt_def parseSegment_def or_zero_def)

section \<open>Column resolution and row processing\<close>

lemma identify_step_name:
  "cm_name (identify_step h i cm) =
     (if name_header (normalizeString h) then Some i else cm_name cm)"
  by (simp add: identify_step_def Let_def)

lemma identify_loop_name_keep:
  "\<forall>x\<in>set hs. \<not> name_header (normalizeString x) \<Longrightarrow>
     cm_name (identify_loop hs i cm) = cm_name cm"
  by (induction hs arbitrary: i cm) (simp_all add: identify_step_name)

lemma processRows_unresolved:
  "falsy_index (cm_name (identifyColumns headers)) \<Longrightarrow>
     processRows headers rows i g = ([], g)"
  by (induction rows arbitrary: i) (simp_all add: processRow_def)

lemma processRows_append:
  "processRows headers (xs @ ys) i g =
     (case processRows headers xs i g of (ds1, g1) \<Rightarrow>
      case processRows headers ys (i + length xs) g1 of (ds2, g2) \<Rightarrow> (ds1 @ ds2, g2))"
  by (induction xs arbitrary: i g) (auto split: prod.splits option.splits)

subsection \<open>Trimming\<close>

lemma dropWhile_fixed: "xs = [] \<or> \<not> P (hd xs) \<Longrightarrow> dropWhile P xs = xs"
  by (cases xs) auto

lemma trim_idem: "trim (trim s) = trim s"
proof -
  define u where "u = dropWhile is_ws s"
  define w where "w = dropWhile is_ws (rev u)"
  have t: "trim s = rev w" by (simp add: trim_def u_def w_def)
  have u_head: "u = [] \<or> \<not> is_ws (hd u)"
    unfolding u_def by (metis hd_dropWhile)
  have w_head: "w = [] \<or> \<not> is_ws (hd w)"
    unfolding w_def by (metis hd_dropWhile)
  have "rev u = takeWhile is_ws (rev u) @ w"
    by (simp add: w_def)
  then have "u = rev w @ rev (takeWhile is_ws (rev u))"
    by (metis rev_append rev_rev_ident)
  then have "rev w = [] \<or> hd (rev w) = hd u" "rev w \<noteq> [] \<longrightarrow> u \<noteq> []"
    by (metis hd_append2, metis append_is_Nil_conv)
  with u_head have "rev w = [] \<or> \<not> is_ws (hd (rev w))" by auto
  then have 1: "dropWhile is_ws (rev w) = rev w" by (rule dropWhile_fixed)
  have 2: "dropWhile is_ws w = w" using w_head by (rule dropWhile_fixed)
  show ?thesis by (simp add: t) (simp add: trim_def 1 2)
qed

lemma trim_empty_iff: "trim s = [] \<longleftrightarrow> (\<forall>c\<in>set s. is_ws c)"
proof
  assume "trim s = []"
  then have all: "\<forall>x\<in>set (dropWhile is_ws s). is_ws x"
    by (simp add: trim_def dropWhile_eq_Nil_conv)
  have "dropWhile is_ws s = []"
  proof (rule ccontr)
    assume ne: "dropWhile is_ws s \<noteq> []"
    then have "\<not> is_ws (hd (dropWhile is_ws s))" by (rule hd_dropWhile)
    moreover from ne have "hd (dropWhile is_ws s) \<in> set (dropWhile is_ws s)" by simp
    ultimately show False using all by blast
  qed
  then show "\<forall>c\<in>set s. is_ws c" by (simp add: dropWhile_eq_Nil_conv)
next
  assume "\<forall>c\<in>set s. is_ws c"
  then have "dropWhile is_ws s = []" by (simp add: dropWhile_eq_Nil_conv)
  then show "trim s = []" by (simp only: trim_def rev.simps dropWhile.simps)
qed

lemma empty_name_iff:
  "empty_name c \<longleftrightarrow> (case c of None \<Rightarrow> True | Some s \<Rightarrow> trim s = [])"
  by (auto simp: empty_name_def normalizeString_def toLowerCase_def trim_def
      split: option.splits)

lemma processRow_empty_name:
  "empty_name (cell r (cm_name (identifyColumns headers))) \<Longrightarrow>
     processRow r headers n g = (None, g)"
  by (simp add: processRow_def Let_def)

lemma processRow_Some_name:
  assumes "processRow r headers n g = (Some d, g')"
  shows "name d \<noteq> [] \<and> trim (name d) = name d"
proof -
  from assms obtain s where s: "cell r (cm_name (identifyColumns headers)) = Some s"
    and ne: "\<not> empty_name (Some s)" and nm: "name d = trim s"
    by (auto simp: processRow_def Let_def split: if_splits option.splits prod.splits)
  from ne have "trim s \<noteq> []" by (simp add: empty_name_iff)
  with nm show ?thesis by (simp add: trim_idem)
qed

lemma processRows_names:
  "processRows headers rows i g = (ds, g') \<Longrightarrow>
     \<forall>d\<in>set ds. name d \<noteq> [] \<and> trim (name d) = name d"
proof (induction rows arbitrary: i g ds g')
  case Nil
  then show ?case by simp
next
  case (Cons r rows)
  obtain od g1 where pr: "processRow r headers (i + 2) g = (od, g1)"
    by (cases "processRow r headers (i + 2) g")
  obtain ds1 g2 where rest: "processRows headers rows (Suc i) g1 = (ds1, g2)"
    by (cases "processRows headers rows (Suc i) g1")
  from Cons.IH [OF rest] have ih: "\<forall>d\<in>set ds1. name d \<noteq> [] \<and> trim (name d) = name d" .
  show ?case
  proof (cases od)
    case None
    with Cons.prems pr rest ih show ?thesis by simp
  next
    case (Some d)
    with Cons.prems pr rest have "ds = d # ds1" by simp
    with ih processRow_Some_name [OF pr [unfolded Some]] show ?thesis by simp
  qed
qed

lemma fallback_names: "\<forall>d\<in>set getFallbackData. name d \<noteq> [] \<and> trim (name d) = name d"
  by code_simp

lemma loadData_names:
  "\<forall>d\<in>set (loadData extracted g). name d \<noteq> [] \<and> trim (name d) = name d"
proof (cases extracted)
  case (Inl e)
  then show ?thesis using fallback_names by (simp add: loadData_def)
next
  case (Inr rawData)
  show ?thesis
  proof (cases "length rawData < 2")
    case True
    with Inr show ?thesis using fallback_names by (simp add: loadData_def processRawData_def)
  next
    case False
    obtain ds g' where p: "processRows (hd rawData) (tl rawData) 0 g = (ds, g')"
      by (cases "processRows (hd rawData) (tl rawData) 0 g")
    with Inr False have "loadData extracted g = ds"
      by (simp add: loadData_def processRawData_def)
    with processRows_names [OF p] show ?thesis by simp
  qed
qed

subsection \<open>Rounding and the segment threshold\<close>

lemma round_ge_60: "js_ge (Math_round x) (Fin 60) = js_ge x (Fin (119 / 2))"
proof (cases x)
  case (Fin q)
  have "(60 \<le> q + 1 / 2) = (119 / 2 \<le> q)" by auto
  then have "(60 \<le> \<lfloor>q + 1 / 2\<rfloor>) = (119 / 2 \<le> q)"
    by (simp add: le_floor_iff)
  then show ?thesis using Fin by (simp add: not_less)
qed simp_all

lemma parseSegment_hi:
  assumes "v \<noteq> NaN" "a \<noteq> NaN" "v' \<noteq> NaN" "a' \<noteq> NaN"
  shows "parseSegment (Num v) (Num a) = parseSegment (Num v') (Num a')
     \<longleftrightarrow> (js_ge v (Fin 60) = js_ge v' (Fin 60)) \<and> (js_ge a (Fin 60) = js_ge a' (Fin 60))"
  using assms by (auto simp: parseSegment_def or_zero_id js_lt_not_ge)

lemma Math_round_NaN: "Math_round x = NaN \<longleftrightarrow> x = NaN"
  by (cases x) simp_all

lemma in_gap_iff:
  "x \<noteq> NaN \<Longrightarrow> in_gap x \<longleftrightarrow> (js_ge x (Fin 60) \<noteq> js_ge (Math_round x) (Fin 60))"
  by (cases x) (auto simp: in_gap_def round_ge_60 not_less)

lemma parseSegment_round:
  assumes "v \<noteq> NaN" "a \<noteq> NaN"
  shows "parseSegment (Num v) (Num a) = parseSegment (Num (Math_round v)) (Num (Math_round a))
     \<longleftrightarrow> \<not> in_gap v \<and> \<not> in_gap a"
  using assms by (simp add: parseSegment_hi Math_round_NaN in_gap_iff)

lemma parse_or_random_not_NaN: "fst (parse_or_random v g) \<noteq> NaN"
  by (cases "parseFloat v") (simp_all add: parse_or_random_def random100_def binary64_not_NaN)

lemma processedValues_not_NaN:
  "processedValues r cm g = ((pv, pa), g') \<Longrightarrow> pv \<noteq> NaN \<and> pa \<noteq> NaN"
  unfolding processedValues_def
  by (auto split: prod.splits) (metis fst_conv parse_or_random_not_NaN)+

lemma processRow_Some_fields:
  assumes "processRow r headers n g = (Some d, g')"
  shows "\<exists>pv pa. processedValues r (identifyColumns headers) g = ((pv, pa), g')
        \<and> segment d = parseSegment (Num pv) (Num pa)
        \<and> priority d = parsePriority (Num pv) (Num pa) (segment d)
        \<and> volume d = Math_round pv \<and> affinity d = Math_round pa"
  using assms
  by (auto simp: processRow_def Let_def split: if_splits option.splits prod.splits)

subsection \<open>Two sample rows\<close>

lemmas parse_eval = parseFloatStr_def is_ws_def is_digit_def digits_val_def

lemmas row_eval = processRow_def cell_def processedValues_def cell_or_random_def
  parse_or_random_def falsy_index_def parseSegment_def parsePriority_def or_zero_def js_gt_def
  random100_def

lemma columns_id_first:
  "identifyColumns [''Id'', ''Nome'', ''Volume'', ''Afinidade''] =
     \<lparr>cm_name = Some 1, cm_specialty = None, cm_volume = Some 2, cm_affinity = Some 3\<rparr>"
  by code_simp

lemma parseFloatStr_samples:
  "parseFloatStr ''59.75'' = Fin (239 / 4)" "parseFloatStr ''90'' = Fin 90"
  "parseFloatStr ''85'' = Fin 85" "parseFloatStr ''30'' = Fin 30"
  "parseFloatStr ''0'' = Fin 0" "parseFloatStr ''50'' = Fin 50"
  by (simp_all add: parse_eval binary64_samples)

lemma sample_names:
  "\<not> empty_name (Some ''Dra. Ana'')" "trim ''Dra. Ana'' = ''Dra. Ana''"
  "\<not> empty_name (Some ''Dr. Rui'')" "trim ''Dr. Rui'' = ''Dr. Rui''"
  "\<not> empty_name (Some ''Dr. Zero'')" "trim ''Dr. Zero'' = ''Dr. Zero''"
  "parseSpecialty [] = ''outras''"
  by code_simp+

lemma row_ana:
  "processRow [''1'', ''Dra. Ana'', ''59.75'', ''90'']
       [''Id'', ''Nome'', ''Volume'', ''Afinidade''] n g =
     (Some \<lparr>id' = n, name = ''Dra. Ana'', specialty = ''outras'', segment = ''incentivar'',
            volume = Fin 60, affinity = Fin 90, priority = ''high'',
            originalRow = Some n\<rparr>, g)"
  by (simp add: row_eval columns_id_first parseFloatStr_samples sample_names floor_eq_iff)

lemma row_rui:
  "processRow [''3'', ''Dr. Rui'', ''85'', ''30'']
       [''Id'', ''Nome'', ''Volume'', ''Afinidade''] n g =
     (Some \<lparr>id' = n, name = ''Dr. Rui'', specialty = ''outras'', segment = ''avaliar'',
            volume = Fin 85, affinity = Fin 30, priority = ''high'',
            originalRow = Some n\<rparr>, g)"
  by (simp add: row_eval columns_id_first parseFloatStr_samples sample_names floor_eq_iff)

text \<open>
  Rounding at work: a literal just below 60 that is the Number 60, a literal too small and
  one too large for binary64, and the draw \<open>0.595\<close> (the Number nearest to it) whose
  product with 100 is the Number 59.5.
\<close>

lemma parseFloatStr_rounds_to_60: "parseFloatStr ''59.99999999999999999'' = Fin 60"
  by (simp add: parse_eval binary64_rounds_to_60)

lemma parseFloatStr_underflow: "parseFloatStr ''1e-324'' = Fin 0"
  using binary64_underflow by (simp add: parse_eval)

lemma parseFloatStr_overflow: "parseFloatStr ''1e309'' = PInf"
  using binary64_overflow by (simp add: parse_eval)

lemma random100_rounds:
  "fst (random100 (constant_rng (2679641778285445 / 2 ^ 52))) = Fin (119 / 2)"
  using binary64_rounds_product by (simp add: random100_def constant_rng_def)

text \<open>
  A row of integer cells whose volume cell is \<open>0\<close>: the draw \<open>153/256\<close> puts the
  processed volume at 59.765625, inside the gap below the threshold.
\<close>

lemma row_zero_draw:
  "processRow [''1'', ''Dr. Zero'', ''0'', ''90'']
       [''Id'', ''Nome'', ''Volume'', ''Afinidade''] n (constant_rng (153 / 256)) =
     (Some \<lparr>id' = n, name = ''Dr. Zero'', specialty = ''outras'', segment = ''incentivar'',
            volume = Fin 60, affinity = Fin 90, priority = ''high'',
            originalRow = Some n\<rparr>, constant_rng (153 / 256))"
proof -
  have "binary64 (3825 / 64) = Fin (3825 / 64)"
    using binary64_exact [of 3825 "- 6"] by simp
  then show ?thesis
    by (simp add: row_eval columns_id_first parseFloatStr_samples sample_names floor_eq_iff
        constant_rng_def)
qed

section \<open>The record builder\<close>

lemma processRows_member:
  "d \<in> set (fst (processRows headers rows i g)) \<Longrightarrow>
     \<exists>r\<in>set rows. \<exists>n g0 g1. processRow r headers n g0 = (Some d, g1)"
proof (induction rows arbitrary: i g)
  case Nil
  then show ?case by simp
next
  case (Cons r rows)
  obtain od g1 where pr: "processRow r headers (i + 2) g = (od, g1)"
    by (cases "processRow r headers (i + 2) g")
  show ?case
  proof (cases "d \<in> set (fst (processRows headers rows (Suc i) g1))")
    case True
    from Cons.IH [OF True] show ?thesis by auto
  next
    case False
    with Cons.prems pr have "od = Some d"
      by (cases od) (auto split: prod.splits)
    with pr show ?thesis by auto
  qed
qed

lemma loadData_member:
  assumes "d \<in> set (loadData extracted g)"
  shows "d \<in> set getFallbackData
       \<or> (\<exists>rawData r n g0 g1. extracted = Inr rawData \<and> r \<in> set (tl rawData)
            \<and> processRow r (hd rawData) n g0 = (Some d, g1))"
proof (cases extracted)
  case (Inl e)
  with assms show ?thesis by (simp add: loadData_def)
next
  case (Inr rawData)
  show ?thesis
  proof (cases "length rawData < 2")
    case True
    with Inr assms show ?thesis by (simp add: loadData_def processRawData_def)
  next
    case False
    with Inr assms have "d \<in> set (fst (processRows (hd rawData) (tl rawData) 0 g))"
      by (simp add: loadData_def processRawData_def)
    from processRows_member [OF this] Inr show ?thesis by blast
  qed
qed

lemma fallback_round_trip:
  "d \<in> set getFallbackData \<Longrightarrow> segment d = parseSegment (Num (volume d)) (Num (affinity d))"
  by (auto simp: getFallbackData_def parseSegment_def or_zero_def)

lemma processRow_round_trip:
  assumes "processRow r headers n g = (Some d, g')"
    and "fst (processedValues r (identifyColumns headers) g) = (pv, pa)"
  shows "segment d = parseSegment (Num pv) (Num pa)
       \<and> volume d = Math_round pv \<and> affinity d = Math_round pa
       \<and> (segment d = parseSegment (Num (volume d)) (Num (affinity d))
            \<longleftrightarrow> \<not> in_gap pv \<and> \<not> in_gap pa)"
proof -
  from processRow_Some_fields [OF assms(1)] assms(2)
  have pv: "processedValues r (identifyColumns headers) g = ((pv, pa), g')"
    and f: "segment d = parseSegment (Num pv) (Num pa)"
      "volume d = Math_round pv" "affinity d = Math_round pa"
    by auto
  from processedValues_not_NaN [OF pv] have "pv \<noteq> NaN" "pa \<noteq> NaN" by simp_all
  with f show ?thesis by (simp add: parseSegment_round)
qed

text \<open>
  C1, as the code has it. Every Doctor that \<open>loadData\<close> returns is either one of the
  built-in fallback Doctors, whose stored segment is the segment of its stored volume and
  affinity, or a Doctor that \<open>processRow\<close> built from a data row of the sheet. A Doctor
  built from a row carries the segment of the row's processed volume and affinity (the
  parsed cell, or the random draw put in its place) before rounding, and stores their
  roundings; the segment derived again from the stored volume and affinity is the stored
  segment if and only if neither processed value lies in \<open>[59.5, 60)\<close>, the values that
  rounding lifts to the threshold 60.
\<close>

theorem segment_rederived_from_stored:
  "\<forall>d\<in>set (loadData extracted g).
     (d \<in> set getFallbackData
        \<and> segment d = parseSegment (Num (volume d)) (Num (affinity d)))
   \<or> (\<exists>rawData r n g0 g1 pv pa.
          extracted = Inr rawData \<and> r \<in> set (tl rawData)
        \<and> processRow r (hd rawData) n g0 = (Some d, g1)
        \<and> fst (processedValues r (identifyColumns (hd rawData)) g0) = (pv, pa)
        \<and> segment d = parseSegment (Num pv) (Num pa)
        \<and> volume d = Math_round pv \<and> affinity d = Math_round pa
        \<and> (segment d = parseSegment (Num (volume d)) (Num (affinity d))
             \<longleftrightarrow> \<not> in_gap pv \<and> \<not> in_gap pa))"
proof
  fix d
  assume "d \<in> set (loadData extracted g)"
  from loadData_member [OF this] show
    "(d \<in> set getFallbackData
        \<and> segment d = parseSegment (Num (volume d)) (Num (affinity d)))
   \<or> (\<exists>rawData r n g0 g1 pv pa.
          extracted = Inr rawData \<and> r \<in> set (tl rawData)
        \<and> processRow r (hd rawData) n g0 = (Some d, g1)
        \<and> fst (processedValues r (identifyColumns (hd rawData)) g0) = (pv, pa)
        \<and> segment d = parseSegment (Num pv) (Num pa)
        \<and> volume d = Math_round pv \<and> affinity d = Math_round pa
        \<and> (segment d = parseSegment (Num (volume d)) (Num (affinity d))
             \<longleftrightarrow> \<not> in_gap pv \<and> \<not> in_gap pa))"
  proof
    assume "d \<in> set getFallbackData"
    then show ?thesis by (simp add: fallback_round_trip)
  next
    assume "\<exists>rawData r n g0 g1. extracted = Inr rawData \<and> r \<in> set (tl rawData)
            \<and> processRow r (hd rawData) n g0 = (Some d, g1)"
    then obtain rawData r n g0 g1 where x: "extracted = Inr rawData" "r \<in> set (tl rawData)"
      and pr: "processRow r (hd rawData) n g0 = (Some d, g1)"
      by blast
    obtain pv pa where pv: "fst (processedValues r (identifyColumns (hd rawData)) g0) = (pv, pa)"
      by (cases "fst (processedValues r (identifyColumns (hd rawData)) g0)")
    from processRow_round_trip [OF pr pv] x pr pv show ?thesis by blast
  qed
qed

text \<open>
  The theorem at a sheet of two data rows. The volume cell \<open>85\<close> is outside the gap and
  the Doctor's segment is the segment of its stored fields; the volume cell \<open>59.75\<close> is
  inside the gap and the Doctor's segment is not.
\<close>

theorem segment_rederived_from_stored_witness:
  "loadData (Inr [[''Id'', ''Nome'', ''Volume'', ''Afinidade''],
                  [''3'', ''Dr. Rui'', ''85'', ''30''],
                  [''1'', ''Dra. Ana'', ''59.75'', ''90'']]) (constant_rng 0) =
     [\<lparr>id' = 2, name = ''Dr. Rui'', specialty = ''outras'', segment = ''avaliar'',
       volume = Fin 85, affinity = Fin 30, priority = ''high'', originalRow = Some 2\<rparr>,
      \<lparr>id' = 3, name = ''Dra. Ana'', specialty = ''outras'', segment = ''incentivar'',
       volume = Fin 60, affinity = Fin 90, priority = ''high'', originalRow = Some 3\<rparr>]
   \<and> \<not> in_gap (Fin 85) \<and> \<not> in_gap (Fin 30) \<and> in_gap (Fin (239 / 4))
   \<and> parseSegment (Num (Fin 85)) (Num (Fin 30)) = ''avaliar''
   \<and> parseSegment (Num (Fin 60)) (Num (Fin 90)) = ''blindar''"
proof -
  let ?sheet = "[[''Id'', ''Nome'', ''Volume'', ''Afinidade''],
                 [''3'', ''Dr. Rui'', ''85'', ''30''],
                 [''1'', ''Dra. Ana'', ''59.75'', ''90'']]"
  let ?rui = "\<lparr>id' = 2, name = ''Dr. Rui'', specialty = ''outras'', segment = ''avaliar'',
       volume = Fin 85, affinity = Fin 30, priority = ''high'', originalRow = Some 2\<rparr>"
  let ?ana = "\<lparr>id' = 3, name = ''Dra. Ana'', specialty = ''outras'', segment = ''incentivar'',
       volume = Fin 60, affinity = Fin 90, priority = ''high'', originalRow = Some 3\<rparr>"
  have l: "loadData (Inr ?sheet) (constant_rng 0) = [?rui, ?ana]"
    by (simp add: loadData_def processRawData_def row_ana row_rui)
  have gap: "\<not> in_gap (Fin 85)" "\<not> in_gap (Fin 30)" "in_gap (Fin (239 / 4))"
    by (simp_all add: in_gap_def)
  have nf: "?rui \<notin> set getFallbackData"
    by (simp add: getFallbackData_def)
  from segment_rederived_from_stored [of "Inr ?sheet" "constant_rng 0"] l
  have "(?rui \<in> set getFallbackData
        \<and> segment ?rui = parseSegment (Num (volume ?rui)) (Num (affinity ?rui)))
   \<or> (\<exists>rawData r n g0 g1 pv pa.
          Inr ?sheet = (Inr rawData :: error + row list) \<and> r \<in> set (tl rawData)
        \<and> processRow r (hd rawData) n g0 = (Some ?rui, g1)
        \<and> fst (processedValues r (identifyColumns (hd rawData)) g0) = (pv, pa)
        \<and> segment ?rui = parseSegment (Num pv) (Num pa)
        \<and> volume ?rui = Math_round pv \<and> affinity ?rui = Math_round pa
        \<and> (segment ?rui = parseSegment (Num (volume ?rui)) (Num (affinity ?rui))
             \<longleftrightarrow> \<not> in_gap pv \<and> \<not> in_gap pa))"
    by simp
  with nf obtain r n g0 g1 pv pa where r: "r \<in> set (tl ?sheet)"
    and pr: "processRow r (hd ?sheet) n g0 = (Some ?rui, g1)"
    and pv: "fst (processedValues r (identifyColumns (hd ?sheet)) g0) = (pv, pa)"
    and iff: "segment ?rui = parseSegment (Num (volume ?rui)) (Num (affinity ?rui))
             \<longleftrightarrow> \<not> in_gap pv \<and> \<not> in_gap pa"
    by blast
  from r pr have "r = [''3'', ''Dr. Rui'', ''85'', ''30'']"
    by (auto simp: row_ana)
  with pv have "pv = Fin 85" "pa = Fin 30"
    by (simp_all add: row_eval columns_id_first parseFloatStr_samples)
  with iff gap have "parseSegment (Num (Fin 85)) (Num (Fin 30)) = ''avaliar''"
    by simp
  moreover have "parseSegment (Num (Fin 60)) (Num (Fin 90)) = ''blindar''"
    by (simp add: parseSegment_def or_zero_def)
  ultimately show ?thesis using l gap by simp
qed

text \<open>
  C1, as the spec states it, fails: the volume cell \<open>59.75\<close> is classified below the
  threshold (\<open>incentivar\<close>) and stored as 60, from which the classifier gives
  \<open>blindar\<close>.
\<close>

theorem segment_roundtrip_counterexample:
  "loadData (Inr [[''Id'', ''Nome'', ''Volume'', ''Afinidade''],
                  [''1'', ''Dra. Ana'', ''59.75'', ''90'']]) (constant_rng 0) =
     [\<lparr>id' = 2, name = ''Dra. Ana'', specialty = ''outras'', segment = ''incentivar'',
       volume = Fin 60, affinity = Fin 90, priority = ''high'', originalRow = Some 2\<rparr>]
   \<and> parseSegment (Num (Fin 60)) (Num (Fin 90)) \<noteq> ''incentivar''"
  by (simp add: loadData_def processRawData_def row_ana) (simp add: parseSegment_def or_zero_def)

text \<open>
  C2. The code run on scenario A: the header \<open>Nome\<close> is at index 0, \<open>processRow\<close>
  takes the name column for unresolved and the sheet gives no Doctor at all, where the
  claim expects the one Doctor \<open>Dr. Teste\<close>.
\<close>

theorem scenario_A_yields_no_doctor:
  "cm_name (identifyColumns [''Nome'', ''Especialidade'', ''Volume'', ''Afinidade'']) = Some 0
   \<and> processRawData [[''Nome'', ''Especialidade'', ''Volume'', ''Afinidade''],
                      [''Dr. Teste'', ''Cardio'', ''85'', ''90'']] g = Inr []
   \<and> loadData (Inr [[''Nome'', ''Especialidade'', ''Volume'', ''Afinidade''],
                     [''Dr. Teste'', ''Cardio'', ''85'', ''90'']]) g = []"
proof -
  have c: "cm_name (identifyColumns [''Nome'', ''Especialidade'', ''Volume'', ''Afinidade''])
             = Some 0"
    by code_simp
  then have "falsy_index
      (cm_name (identifyColumns [''Nome'', ''Especialidade'', ''Volume'', ''Afinidade'']))"
    by (simp add: falsy_index_def)
  then have pr: "processRows [''Nome'', ''Especialidade'', ''Volume'', ''Afinidade''] rows i g
      = ([], g)" for rows i
    by (rule processRows_unresolved)
  show ?thesis
    by (simp add: loadData_def processRawData_def c pr del: processRows.simps)
qed

text \<open>
  C3. The code run on a row whose volume cell is \<open>0\<close>: the cell parses to the number 0,
  which is falsy, and the processed volume is a random draw; the stored volume is the
  rounding of the draw, not 0.
\<close>

theorem zero_cell_replaced_by_random:
  "parseFloat (Str ''0'') = Fin 0
   \<and> fst (processedValues [''1'', ''Dr. Zero'', ''0'', ''50'']
            (identifyColumns [''Id'', ''Nome'', ''Volume'', ''Afinidade'']) g)
       = (binary64 (g 0 * 100), Fin 50)
   \<and> processRawData [[''Id'', ''Nome'', ''Volume'', ''Afinidade''],
                      [''1'', ''Dr. Zero'', ''0'', ''50'']] (constant_rng (3 / 4)) =
       Inr [\<lparr>id' = 2, name = ''Dr. Zero'', specialty = ''outras'', segment = ''avaliar'',
             volume = Fin 75, affinity = Fin 50, priority = ''strategic'',
             originalRow = Some 2\<rparr>]"
proof -
  have "processRow [''1'', ''Dr. Zero'', ''0'', ''50'']
          [''Id'', ''Nome'', ''Volume'', ''Afinidade''] n (constant_rng (3 / 4)) =
        (Some \<lparr>id' = n, name = ''Dr. Zero'', specialty = ''outras'', segment = ''avaliar'',
             volume = Fin 75, affinity = Fin 50, priority = ''strategic'',
             originalRow = Some n\<rparr>, constant_rng (3 / 4))" for n
    by (simp add: row_eval columns_id_first parseFloatStr_samples sample_names floor_eq_iff
        constant_rng_def binary64_samples)
  then show ?thesis
    by (simp add: processRawData_def)
      (simp add: row_eval columns_id_first parseFloatStr_samples)
qed

text \<open>
  C6. Every Doctor that \<open>loadData\<close> returns has a name that is not empty and is its own
  trimming. A data row whose name cell is empty or holds white space only gives no Doctor
  and draws no random number, and the rows before and after it are processed as they
  would be without it (the rows after it keep their row numbers).
\<close>

theorem blank_name_rows_dropped:
  "(\<forall>d\<in>set (loadData extracted g). name d \<noteq> [] \<and> trim (name d) = name d)
   \<and> (cell r (cm_name (identifyColumns headers)) = Some s \<and> (\<forall>c\<in>set s. is_ws c) \<longrightarrow>
        processRow r headers n g = (None, g)
        \<and> processRows headers (pre @ r # post) i g =
            (case processRows headers pre i g of (ds1, g1) \<Rightarrow>
             case processRows headers post (i + length pre + 1) g1 of (ds2, g2) \<Rightarrow>
               (ds1 @ ds2, g2)))"
proof (intro conjI impI)
  show "\<forall>d\<in>set (loadData extracted g). name d \<noteq> [] \<and> trim (name d) = name d"
    by (rule loadData_names)
next
  assume a: "cell r (cm_name (identifyColumns headers)) = Some s \<and> (\<forall>c\<in>set s. is_ws c)"
  then have e: "empty_name (cell r (cm_name (identifyColumns headers)))"
    by (simp add: empty_name_iff trim_empty_iff)
  then show "processRow r headers n g = (None, g)" by (rule processRow_empty_name)
  have "processRow r headers k g1 = (None, g1)" for k g1
    using e by (rule processRow_empty_name)
  then show "processRows headers (pre @ r # post) i g =
            (case processRows headers pre i g of (ds1, g1) \<Rightarrow>
             case processRows headers post (i + length pre + 1) g1 of (ds2, g2) \<Rightarrow>
               (ds1 @ ds2, g2))"
    by (simp add: processRows_append split: prod.splits)
qed

theorem blank_name_rows_dropped_witness:
  "cell [''2'', ''   '', ''10'', ''20'']
     (cm_name (identifyColumns [''Id'', ''Nome'', ''Volume'', ''Afinidade''])) = Some ''   ''
   \<and> list_all is_ws ''   ''
   \<and> processRow [''2'', ''   '', ''10'', ''20''] [''Id'', ''Nome'', ''Volume'', ''Afinidade'']
        3 (constant_rng 0) = (None, constant_rng 0)
   \<and> map name (loadData (Inr [[''Id'', ''Nome'', ''Volume'', ''Afinidade''],
                              [''1'', ''Dra. Ana'', ''59.75'', ''90''],
                              [''2'', ''   '', ''10'', ''20''],
                              [''3'', ''Dr. Rui'', ''85'', ''30'']]) (constant_rng 0))
       = [''Dra. Ana'', ''Dr. Rui'']"
proof -
  have c: "cell [''2'', ''   '', ''10'', ''20'']
     (cm_name (identifyColumns [''Id'', ''Nome'', ''Volume'', ''Afinidade''])) = Some ''   ''"
    by (simp add: columns_id_first cell_def)
  have w: "\<forall>c\<in>set ''   ''. is_ws c"
    by (simp add: is_ws_def)
  note inst = blank_name_rows_dropped
    [of "Inr []" "constant_rng 0" "[''2'', ''   '', ''10'', ''20'']"
        "[''Id'', ''Nome'', ''Volume'', ''Afinidade'']" "''   ''" 3
        "[[''1'', ''Dra. Ana'', ''59.75'', ''90'']]" "[[''3'', ''Dr. Rui'', ''85'', ''30'']]" 0]
  from inst c w
  have blank: "processRow [''2'', ''   '', ''10'', ''20'']
      [''Id'', ''Nome'', ''Volume'', ''Afinidade''] 3 (constant_rng 0) = (None, constant_rng 0)"
    and rows: "processRows [''Id'', ''Nome'', ''Volume'', ''Afinidade'']
        ([[''1'', ''Dra. Ana'', ''59.75'', ''90'']] @ [''2'', ''   '', ''10'', ''20'']
           # [[''3'', ''Dr. Rui'', ''85'', ''30'']]) 0 (constant_rng 0) =
        (case processRows [''Id'', ''Nome'', ''Volume'', ''Afinidade'']
               [[''1'', ''Dra. Ana'', ''59.75'', ''90'']] 0 (constant_rng 0) of
           (ds1, g1) \<Rightarrow>
             case processRows [''Id'', ''Nome'', ''Volume'', ''Afinidade'']
                    [[''3'', ''Dr. Rui'', ''85'', ''30'']] (0 + length
                      [[''1'', ''Dra. Ana'', ''59.75'', ''90'']] + 1) g1 of
               (ds2, g2) \<Rightarrow> (ds1 @ ds2, g2))"
    by blast+
  from rows have "map name (fst (processRows [''Id'', ''Nome'', ''Volume'', ''Afinidade'']
        [[''1'', ''Dra. Ana'', ''59.75'', ''90''], [''2'', ''   '', ''10'', ''20''],
         [''3'', ''Dr. Rui'', ''85'', ''30'']] 0 (constant_rng 0)))
      = [''Dra. Ana'', ''Dr. Rui'']"
    by (simp add: row_ana row_rui)
  with c w blank show ?thesis
    by (simp add: loadData_def processRawData_def)
qed

section \<open>The ingestion pipeline\<close>

text \<open>
  C7. Whatever error fetching, reading or extracting throws, \<open>loadData\<close> returns the
  fallback data. A grid of fewer than two rows (a header row alone, or nothing) makes
  \<open>processRawData\<close> throw its error, and \<open>loadData\<close> returns the fallback data again.
  \<open>loadData\<close> returns a list in every case, and the fallback data are the three built-in
  entries.
\<close>

theorem loadData_fallback_on_failure:
  "loadData (Inl e) g = getFallbackData
   \<and> (length rawData < 2 \<longrightarrow>
        processRawData rawData g = Inl (Error ''Dados insuficientes na planilha'')
        \<and> loadData (Inr rawData) g = getFallbackData)
   \<and> length getFallbackData = 3
   \<and> map id' getFallbackData = [1, 2, 3]"
  by (simp add: loadData_def processRawData_def getFallbackData_def)

theorem loadData_fallback_on_failure_witness:
  "length [[''Nome'', ''Especialidade'', ''Volume'', ''Afinidade'']] < 2
   \<and> processRawData [[''Nome'', ''Especialidade'', ''Volume'', ''Afinidade'']] (constant_rng 0)
       = Inl (Error ''Dados insuficientes na planilha'')
   \<and> loadData (Inr [[''Nome'', ''Especialidade'', ''Volume'', ''Afinidade'']]) (constant_rng 0)
       = getFallbackData
   \<and> map specialty getFallbackData = [''cardiologia'', ''neurologia'', ''ortopedia'']"
  using loadData_fallback_on_failure
    [of "Error ''Erro HTTP''" "constant_rng 0"
        "[[''Nome'', ''Especialidade'', ''Volume'', ''Afinidade'']]"]
  by (simp add: getFallbackData_def)

text \<open>
  C10. When the header at index 0 is a name header and no later header is one, the name
  column resolves to index 0, which \<open>processRow\<close> takes for unresolved: it returns
  \<open>null\<close> for every row, drawing no random number, and \<open>processRawData\<close> returns the
  empty list, not an error, from a sheet with that header row and at least one data row.
\<close>

theorem name_at_index_zero_unresolved:
  assumes "name_header (normalizeString h)"
    and "\<forall>x\<in>set hs. \<not> name_header (normalizeString x)"
  shows "cm_name (identifyColumns (h # hs)) = Some 0
       \<and> falsy_index (cm_name (identifyColumns (h # hs)))
       \<and> processRow r (h # hs) rowNumber g = (None, g)
       \<and> processRows (h # hs) rows i g = ([], g)
       \<and> processRawData ((h # hs) # r # rows) g = Inr []"
proof -
  have n: "cm_name (identifyColumns (h # hs)) = Some 0"
    using assms by (simp add: identifyColumns_def identify_loop_name_keep identify_step_name)
  then have f: "falsy_index (cm_name (identifyColumns (h # hs)))"
    by (simp add: falsy_index_def)
  have pr: "processRows (h # hs) rs j g = ([], g)" for rs j
    using f by (rule processRows_unresolved)
  have "processRawData ((h # hs) # r # rows) g = Inr []"
    by (simp add: processRawData_def pr del: processRows.simps)
  with n f pr show ?thesis
    by (simp add: processRow_def del: processRows.simps)
qed

theorem name_at_index_zero_unresolved_witness:
  "name_header (normalizeString ''Nome do Medico'')
   \<and> list_all (\<lambda>x. \<not> name_header (normalizeString x)) [''Volume'', ''Afinidade'']
   \<and> cm_name (identifyColumns [''Nome do Medico'', ''Volume'', ''Afinidade'']) = Some 0
   \<and> processRawData [[''Nome do Medico'', ''Volume'', ''Afinidade''],
                      [''Dra. Ana'', ''59.75'', ''90''],
                      [''Dr. Rui'', ''85'', ''30'']] (constant_rng 0) = Inr []"
proof -
  have a: "name_header (normalizeString ''Nome do Medico'')"
    by code_simp
  have b: "list_all (\<lambda>x. \<not> name_header (normalizeString x)) [''Volume'', ''Afinidade'']"
    by code_simp
  then have b': "\<forall>x\<in>set [''Volume'', ''Afinidade'']. \<not> name_header (normalizeString x)"
    by (simp only: list_all_iff)
  from name_at_index_zero_unresolved [OF a b',
      of "[''Dra. Ana'', ''59.75'', ''90'']" _ "constant_rng 0" "[[''Dr. Rui'', ''85'', ''30'']]"]
    a b show ?thesis by blast
qed

section \<open>The filter engine\<close>

lemma js_ge_trans: "js_ge v m2 \<Longrightarrow> js_ge m2 m1 \<Longrightarrow> js_ge v m1"
  by (cases v; cases m2; cases m1) simp_all

text \<open>
  C8. With every other filter field fixed, raising \<open>volume.min\<close> from \<open>m1\<close> to \<open>m2\<close>
  gives the doctors of the result at \<open>m1\<close> whose volume is at least \<open>m2\<close>: a
  subsequence of that result, so a subset of it and no longer than it. The same holds for
  \<open>affinity.min\<close>.
\<close>

theorem raising_min_shrinks_result:
  assumes "js_le m1 m2"
  shows "applyFilters ds (st\<lparr>f_volume := (f_volume st)\<lparr>range_min := m2\<rparr>\<rparr>) =
           filter (\<lambda>d. js_ge (volume d) m2)
             (applyFilters ds (st\<lparr>f_volume := (f_volume st)\<lparr>range_min := m1\<rparr>\<rparr>))
       \<and> subseq (applyFilters ds (st\<lparr>f_volume := (f_volume st)\<lparr>range_min := m2\<rparr>\<rparr>))
                 (applyFilters ds (st\<lparr>f_volume := (f_volume st)\<lparr>range_min := m1\<rparr>\<rparr>))
       \<and> set (applyFilters ds (st\<lparr>f_volume := (f_volume st)\<lparr>range_min := m2\<rparr>\<rparr>))
           \<subseteq> set (applyFilters ds (st\<lparr>f_volume := (f_volume st)\<lparr>range_min := m1\<rparr>\<rparr>))
       \<and> length (applyFilters ds (st\<lparr>f_volume := (f_volume st)\<lparr>range_min := m2\<rparr>\<rparr>))
           \<le> length (applyFilters ds (st\<lparr>f_volume := (f_volume st)\<lparr>range_min := m1\<rparr>\<rparr>))
       \<and> applyFilters ds (st\<lparr>f_affinity := (f_affinity st)\<lparr>range_min := m2\<rparr>\<rparr>) =
           filter (\<lambda>d. js_ge (affinity d) m2)
             (applyFilters ds (st\<lparr>f_affinity := (f_affinity st)\<lparr>range_min := m1\<rparr>\<rparr>))
       \<and> subseq (applyFilters ds (st\<lparr>f_affinity := (f_affinity st)\<lparr>range_min := m2\<rparr>\<rparr>))
                 (applyFilters ds (st\<lparr>f_affinity := (f_affinity st)\<lparr>range_min := m1\<rparr>\<rparr>))
       \<and> set (applyFilters ds (st\<lparr>f_affinity := (f_affinity st)\<lparr>range_min := m2\<rparr>\<rparr>))
           \<subseteq> set (applyFilters ds (st\<lparr>f_affinity := (f_affinity st)\<lparr>range_min := m1\<rparr>\<rparr>))
       \<and> length (applyFilters ds (st\<lparr>f_affinity := (f_affinity st)\<lparr>range_min := m2\<rparr>\<rparr>))
           \<le> length (applyFilters ds (st\<lparr>f_affinity := (f_affinity st)\<lparr>range_min := m1\<rparr>\<rparr>))"
proof -
  let ?V = "\<lambda>m. applyFilters ds (st\<lparr>f_volume := (f_volume st)\<lparr>range_min := m\<rparr>\<rparr>)"
  let ?A = "\<lambda>m. applyFilters ds (st\<lparr>f_affinity := (f_affinity st)\<lparr>range_min := m\<rparr>\<rparr>)"
  have ge: "js_ge x m2 \<Longrightarrow> js_ge x m1" for x
    using assms by (auto simp: js_le_def dest: js_ge_trans)
  have v: "?V m2 = filter (\<lambda>d. js_ge (volume d) m2) (?V m1)"
    using ge by (auto simp: applyFilters_def Let_def intro!: filter_cong)
  have a: "?A m2 = filter (\<lambda>d. js_ge (affinity d) m2) (?A m1)"
    using ge by (auto simp: applyFilters_def Let_def intro!: filter_cong)
  have "subseq (?V m2) (?V m1)" "set (?V m2) \<subseteq> set (?V m1)" "length (?V m2) \<le> length (?V m1)"
    by (subst v, simp)+
  moreover
  have "subseq (?A m2) (?A m1)" "set (?A m2) \<subseteq> set (?A m1)" "length (?A m2) \<le> length (?A m1)"
    by (subst a, simp)+
  ultimately show ?thesis using v a by blast
qed


theorem raising_min_shrinks_result_witness:
  "js_le (Fin 0) (Fin 50)
   \<and> length (applyFilters getFallbackData
        (currentFilters_initial\<lparr>f_volume := (f_volume currentFilters_initial)\<lparr>range_min := Fin 50\<rparr>\<rparr>))
      \<le> length (applyFilters getFallbackData
        (currentFilters_initial\<lparr>f_volume := (f_volume currentFilters_initial)\<lparr>range_min := Fin 0\<rparr>\<rparr>))
   \<and> map id' (applyFilters getFallbackData
        (currentFilters_initial\<lparr>f_volume := (f_volume currentFilters_initial)\<lparr>range_min := Fin 50\<rparr>\<rparr>))
      = [1, 2]
   \<and> map id' (applyFilters getFallbackData
        (currentFilters_initial\<lparr>f_volume := (f_volume currentFilters_initial)\<lparr>range_min := Fin 0\<rparr>\<rparr>))
      = [1, 2, 3]"
proof -
  have le: "js_le (Fin 0) (Fin 50)" by (simp add: js_le_def)
  from raising_min_shrinks_result [OF le, of getFallbackData currentFilters_initial]
  have "length (applyFilters getFallbackData
        (currentFilters_initial\<lparr>f_volume := (f_volume currentFilters_initial)\<lparr>range_min := Fin 50\<rparr>\<rparr>))
      \<le> length (applyFilters getFallbackData
        (currentFilters_initial\<lparr>f_volume := (f_volume currentFilters_initial)\<lparr>range_min := Fin 0\<rparr>\<rparr>))"
    by blast
  with le show ?thesis
    by (simp add: applyFilters_def currentFilters_initial_def getFallbackData_def)
qed

lemma replace_first_Cons:
  assumes "replace_first a b t = c # s"
  shows "(\<exists>t'. t = a # t' \<and> c = b \<and> s = t')
       \<or> (\<exists>t'. t = c # t' \<and> c \<noteq> a \<and> s = replace_first a b t')"
  using assms by (cases t) (auto split: if_splits)

lemma no_tag_gives_new_opportunities:
  "replace_first CHR ''-'' CHR ''_'' tag \<noteq> ''new-opportunities''"
proof
  assume "replace_first CHR ''-'' CHR ''_'' tag = ''new-opportunities''"
  from replace_first_Cons [OF this] obtain t1 where
    "replace_first CHR ''-'' CHR ''_'' t1 = ''ew-opportunities''" by auto
  from replace_first_Cons [OF this] obtain t2 where
    "replace_first CHR ''-'' CHR ''_'' t2 = ''w-opportunities''" by auto
  from replace_first_Cons [OF this] obtain t3 where
    "replace_first CHR ''-'' CHR ''_'' t3 = ''-opportunities''" by auto
  from replace_first_Cons [OF this] show False by auto
qed

text \<open>
  C9. The code run with the quick filter \<open>new-opportunities\<close> active: the tag is
  rewritten to \<open>new_opportunities\<close>, the priority is spelt \<open>new-opportunities\<close>, and
  the doctor with that priority does not pass (the tag \<open>high\<close>, which has no hyphen,
  does select the doctors of priority \<open>high\<close>). No tag at all is rewritten to
  \<open>new-opportunities\<close>.
\<close>

theorem quick_filter_new_opportunities_matches_nothing:
  "map priority getFallbackData = [''high'', ''high'', ''new-opportunities'']
   \<and> replace_first CHR ''-'' CHR ''_'' ''new-opportunities'' = ''new_opportunities''
   \<and> applyFilters getFallbackData
        (currentFilters_initial\<lparr>f_quickFilters := [''new-opportunities'']\<rparr>) = []
   \<and> map id' (applyFilters getFallbackData
        (currentFilters_initial\<lparr>f_quickFilters := [''high'']\<rparr>)) = [1, 2]
   \<and> (\<forall>tag. replace_first CHR ''-'' CHR ''_'' tag \<noteq> ''new-opportunities'')"
  using no_tag_gives_new_opportunities
  by (simp add: applyFilters_def currentFilters_initial_def getFallbackData_def)

end
